theory Spec2Isabelle
  imports
    Complex_Main
    "HOL-Library.Char_ord"
    "HOL-Library.List_Lexorder"
    "HOL-Library.Product_Lexorder"
begin

section \<open>Mutational signature analysis: \<open>wgs_analysis/snvs/mutsig.py\<close>\<close>

text \<open>
  The module is a thin pipeline over data frames. Tables are modelled as lists of rows
  (pandas keeps row order and allows duplicates), Python exceptions as values of the type
  \<open>error\<close>, and the two numerical library routines the module calls
  (\<open>lda.LDA.transform\<close> and \<open>scipy.stats.mannwhitneyu\<close>) as parameters of the functions
  that call them.
\<close>

text \<open>
  The exceptions of the module's own steps, and \<open>LibraryError\<close> for whatever a library
  routine raises.
\<close>

datatype error = KeyError | IndexError | ValueError | LibraryError string

subsection \<open>\<open>reverse_complement\<close>\<close>

text \<open>
  \<^verbatim>\<open>
  def reverse_complement(sequence):
      return sequence[::-1].translate(str.maketrans('ACTGactg','TGACtgac'))
  \<close>
  A dictionary built from a list of pairs keeps the last value of a repeated key.
  \<open>str.maketrans x y\<close> is the dictionary that sends the i-th character of \<open>x\<close> to the i-th
  character of \<open>y\<close>; \<open>translate\<close> replaces every character that is a key of the dictionary
  and keeps every other character.
\<close>

definition dict_of :: "('k \<times> 'v) list \<Rightarrow> ('k \<rightharpoonup> 'v)" where
  "dict_of kvs = fold (\<lambda>(k, v) m. m(k \<mapsto> v)) kvs Map.empty"

definition maketrans :: "string \<Rightarrow> string \<Rightarrow> (char \<rightharpoonup> char)" where
  "maketrans x y = dict_of (zip x y)"

definition translate :: "(char \<rightharpoonup> char) \<Rightarrow> string \<Rightarrow> string" where
  "translate table s = map (\<lambda>c. case table c of None \<Rightarrow> c | Some d \<Rightarrow> d) s"

definition reverse_complement :: "string \<Rightarrow> string" where
  "reverse_complement sequence = translate (maketrans ''ACTGactg'' ''TGACtgac'') (rev sequence)"

text \<open>The character substitution of the translation table, written out.\<close>

definition complement :: "char \<Rightarrow> char" where
  "complement c =
     (if c = CHR ''A'' then CHR ''T'' else if c = CHR ''T'' then CHR ''A''
      else if c = CHR ''C'' then CHR ''G'' else if c = CHR ''G'' then CHR ''C''
      else if c = CHR ''a'' then CHR ''t'' else if c = CHR ''t'' then CHR ''a''
      else if c = CHR ''c'' then CHR ''g'' else if c = CHR ''g'' then CHR ''c''
      else c)"

lemma maketrans_bases:
  "(case maketrans ''ACTGactg'' ''TGACtgac'' c of None \<Rightarrow> c | Some d \<Rightarrow> d) = complement c"
  by (simp add: maketrans_def dict_of_def complement_def)

lemma complement_involution: "complement (complement c) = c"
  by (simp add: complement_def)

lemma reverse_complement_map: "reverse_complement s = map complement (rev s)"
  by (simp add: reverse_complement_def translate_def maketrans_bases)

lemma reverse_complement_twice: "reverse_complement (reverse_complement s) = s"
  by (simp add: reverse_complement_map rev_map complement_involution comp_def)

text \<open>
  Claim C7. \<open>reverse_complement\<close> is an involution: applied twice it returns the string it
  was given (for every string, so in particular for every string over the bases A, C, G, T
  in either case); it reverses the sequence and substitutes A with T, T with A, C with G
  and G with C, upper case to upper case and lower case to lower case.
\<close>

theorem reverse_complement_involution:
  "reverse_complement (reverse_complement s) = s
   \<and> reverse_complement s = map complement (rev s)
   \<and> map complement ''ACGTacgt'' = ''TGCAtgca''"
proof (intro conjI)
  show "reverse_complement (reverse_complement s) = s"
    by (rule reverse_complement_twice)
  show "reverse_complement s = map complement (rev s)"
    by (rule reverse_complement_map)
  show "map complement ''ACGTacgt'' = ''TGCAtgca''"
    by (simp add: complement_def)
qed

subsection \<open>\<open>load_signature_probabilities\<close>\<close>

text \<open>
  The reference table \<open>data/signatures_probabilities.tsv\<close> is a packaged data file that is
  not part of the source, so it is a parameter: a list of rows, each with its
  \<open>Trinucleotide\<close> and \<open>Substitution Type\<close> strings and a value for every other column.
\<close>

record file_row =
  Trinucleotide :: string
  Substitution_Type :: string
  cell :: "string \<Rightarrow> real"

record signature_file =
  other_columns :: "string list"
  file_rows :: "file_row list"

record sig_row =
  tri_nuc_idx :: nat
  ref :: string
  alt :: string
  tri_nucleotide_context :: string

record ('r, 'c, 'v) frame =
  frame_index :: "'r list"
  frame_columns :: "'c list"
  frame_values :: "'v list list"

text \<open>\<open>a.split(sep)\<close> for a one-character separator: always at least one piece.\<close>

fun str_split :: "char \<Rightarrow> string \<Rightarrow> string list" where
  "str_split sep [] = [[]]"
| "str_split sep (c # cs) =
     (if c = sep then [] # str_split sep cs
      else (case str_split sep cs of
              [] \<Rightarrow> [[c]]
            | w # ws \<Rightarrow> (c # w) # ws))"

text \<open>\<open>xs[i]\<close> for a non-negative index: \<open>IndexError\<close> out of range.\<close>

definition getitem :: "'a list \<Rightarrow> nat \<Rightarrow> error + 'a" where
  "getitem xs i = (if i < length xs then Inr (xs ! i) else Inl IndexError)"

text \<open>\<open>Series.apply(f)\<close> with a function that may raise: the first exception ends the call.\<close>

fun apply_series :: "('a \<Rightarrow> error + 'b) \<Rightarrow> 'a list \<Rightarrow> error + 'b list" where
  "apply_series f [] = Inr []"
| "apply_series f (x # xs) =
     (case f x of
        Inl e \<Rightarrow> Inl e
      | Inr y \<Rightarrow> (case apply_series f xs of Inl e \<Rightarrow> Inl e | Inr ys \<Rightarrow> Inr (y # ys)))"

definition startswith :: "string \<Rightarrow> string \<Rightarrow> bool" where
  "startswith a p = (take (length p) a = p)"

definition make_sig_row :: "nat \<times> string \<times> string \<times> string \<Rightarrow> sig_row" where
  "make_sig_row q =
     (case q of (i, r, a, t) \<Rightarrow>
        \<lparr>tri_nuc_idx = i, ref = r, alt = a, tri_nucleotide_context = t\<rparr>)"

text \<open>
  \<^verbatim>\<open>
  sig_prob['tri_nucleotide_context'] = sig_prob['Trinucleotide']
  sig_prob['tri_nuc_idx'] = range(len(sig_prob.index))
  sig_prob['ref'] = sig_prob['Substitution Type'].apply(lambda a: a.split('>')[0])
  sig_prob['alt'] = sig_prob['Substitution Type'].apply(lambda a: a.split('>')[1])
  sig1 = sig_prob[['tri_nuc_idx', 'ref', 'alt', 'tri_nucleotide_context']].copy()
  sig2 = sig_prob[['tri_nuc_idx', 'ref', 'alt', 'tri_nucleotide_context']].copy()
  for col in ['ref', 'alt', 'tri_nucleotide_context']:
      sig2[col] = sig2[col].apply(reverse_complement)
  sigs = pd.concat([sig1, sig2], ignore_index=True)
  signature_cols = filter(lambda a: a.startswith('Signature'), sig_prob.columns)
  sig_prob = sig_prob.set_index('tri_nuc_idx')[signature_cols]
  return sigs, sig_prob
  \<close>
  None of the columns the function adds starts with \<open>Signature\<close>, nor do \<open>Trinucleotide\<close> and
  \<open>Substitution Type\<close>, so the filter is the filter of the other columns; pandas reads the
  filter object as the list of the labels it yields. \<open>a.split('>')[1]\<close> raises \<open>IndexError\<close>
  on a substitution type without \<open>>\<close>.
\<close>

definition load_signature_probabilities ::
  "signature_file \<Rightarrow> error + (sig_row list \<times> (nat, string, real) frame)" where
  "load_signature_probabilities file =
     (let rows = file_rows file;
          tri_nucleotide_contexts = map Trinucleotide rows;
          tri_nuc_idxs = [0 ..< length rows]
      in case apply_series (\<lambda>a. getitem (str_split CHR ''>'' a) 0) (map Substitution_Type rows) of
           Inl e \<Rightarrow> Inl e
         | Inr refs \<Rightarrow>
        (case apply_series (\<lambda>a. getitem (str_split CHR ''>'' a) 1) (map Substitution_Type rows) of
           Inl e \<Rightarrow> Inl e
         | Inr alts \<Rightarrow>
             let sig1 = map make_sig_row (zip tri_nuc_idxs (zip refs (zip alts tri_nucleotide_contexts)));
                 sig2 = map (\<lambda>r. r\<lparr>tri_nucleotide_context := reverse_complement (tri_nucleotide_context r)\<rparr>)
                       (map (\<lambda>r. r\<lparr>alt := reverse_complement (alt r)\<rparr>)
                       (map (\<lambda>r. r\<lparr>ref := reverse_complement (ref r)\<rparr>) sig1));
                 sigs = sig1 @ sig2;
                 signature_cols = filter (\<lambda>a. startswith a ''Signature'') (other_columns file);
                 sig_prob = \<lparr>frame_index = tri_nuc_idxs,
                             frame_columns = signature_cols,
                             frame_values = map (\<lambda>r. map (cell r) signature_cols) rows\<rparr>
             in Inr (sigs, sig_prob)))"

text \<open>The lookup key of a row, its reverse complement, and the lookup being a function.\<close>

definition sig_triple :: "sig_row \<Rightarrow> string \<times> string \<times> string" where
  "sig_triple r = (ref r, alt r, tri_nucleotide_context r)"

definition reverse_complement_triple :: "string \<times> string \<times> string \<Rightarrow> string \<times> string \<times> string" where
  "reverse_complement_triple q =
     (case q of (r, a, t) \<Rightarrow> (reverse_complement r, reverse_complement a, reverse_complement t))"

definition unique_context_index :: "sig_row list \<Rightarrow> bool" where
  "unique_context_index sigs =
     (\<forall>r1 \<in> set sigs. \<forall>r2 \<in> set sigs.
        sig_triple r1 = sig_triple r2 \<longrightarrow> tri_nuc_idx r1 = tri_nuc_idx r2)"

text \<open>
  No two different rows of the table have the same triple, and none has the reverse
  complement of another's.
\<close>

definition strand_distinct :: "sig_row list \<Rightarrow> bool" where
  "strand_distinct orig =
     (\<forall>i < length orig. \<forall>j < length orig. i \<noteq> j \<longrightarrow>
        sig_triple (orig ! i) \<noteq> sig_triple (orig ! j)
        \<and> sig_triple (orig ! i) \<noteq> reverse_complement_triple (sig_triple (orig ! j)))"

subsection \<open>The context lookup: same index on both strands\<close>

definition reverse_complement_row :: "sig_row \<Rightarrow> sig_row" where
  "reverse_complement_row r =
     r\<lparr>ref := reverse_complement (ref r), alt := reverse_complement (alt r),
       tri_nucleotide_context := reverse_complement (tri_nucleotide_context r)\<rparr>"

lemma apply_series_Inr:
  "apply_series f xs = Inr ys \<Longrightarrow>
     length ys = length xs \<and> (\<forall>i < length xs. f (xs ! i) = Inr (ys ! i))"
proof (induction xs arbitrary: ys)
  case Nil
  then show ?case by simp
next
  case (Cons x xs)
  from Cons.prems obtain y ys' where fx: "f x = Inr y" and rest: "apply_series f xs = Inr ys'"
    and ys: "ys = y # ys'"
    by (auto split: sum.splits)
  from Cons.IH [OF rest] have len: "length ys' = length xs"
    and nth: "\<forall>i < length xs. f (xs ! i) = Inr (ys' ! i)" by simp_all
  show ?case
  proof (intro conjI allI impI)
    show "length ys = length (x # xs)" using len ys by simp
  next
    fix i assume "i < length (x # xs)"
    then show "f ((x # xs) ! i) = Inr (ys ! i)"
      using fx nth ys by (cases i) simp_all
  qed
qed

lemma reverse_complement_triple_involution:
  "reverse_complement_triple (reverse_complement_triple q) = q"
  by (cases q) (simp add: reverse_complement_triple_def reverse_complement_twice)

lemma sig_triple_reverse_complement_row:
  "sig_triple (reverse_complement_row r) = reverse_complement_triple (sig_triple r)"
  by (simp add: sig_triple_def reverse_complement_row_def reverse_complement_triple_def)

lemma tri_nuc_idx_reverse_complement_row:
  "tri_nuc_idx (reverse_complement_row r) = tri_nuc_idx r"
  by (simp add: reverse_complement_row_def)

lemma load_sigs_shape:
  assumes "load_signature_probabilities file = Inr (sigs, sig_prob)"
  shows "\<exists>orig. sigs = orig @ map reverse_complement_row orig
           \<and> length orig = length (file_rows file)
           \<and> map tri_nuc_idx orig = [0 ..< length (file_rows file)]
           \<and> map tri_nucleotide_context orig = map Trinucleotide (file_rows file)"
proof -
  let ?rows = "file_rows file"
  let ?subs = "map Substitution_Type ?rows"
  from assms obtain refs alts where
    refs: "apply_series (\<lambda>a. getitem (str_split CHR ''>'' a) 0) ?subs = Inr refs" and
    alts: "apply_series (\<lambda>a. getitem (str_split CHR ''>'' a) 1) ?subs = Inr alts" and
    sigs: "sigs = (let sig1 = map make_sig_row (zip [0 ..< length ?rows] (zip refs (zip alts (map Trinucleotide ?rows))))
                   in sig1 @ map reverse_complement_row sig1)"
    by (auto simp: load_signature_probabilities_def Let_def reverse_complement_row_def comp_def
             split: sum.splits)
  let ?orig = "map make_sig_row (zip [0 ..< length ?rows] (zip refs (zip alts (map Trinucleotide ?rows))))"
  have lr: "length refs = length ?rows" using apply_series_Inr [OF refs] by simp
  have la: "length alts = length ?rows" using apply_series_Inr [OF alts] by simp
  have len: "length ?orig = length ?rows" using lr la by simp
  have idx: "map tri_nuc_idx ?orig = [0 ..< length ?rows]"
    by (rule nth_equalityI) (use lr la in \<open>simp_all add: make_sig_row_def\<close>)
  have ctx: "map tri_nucleotide_context ?orig = map Trinucleotide ?rows"
    by (rule nth_equalityI) (use lr la in \<open>simp_all add: make_sig_row_def\<close>)
  show ?thesis using sigs len idx ctx by (intro exI [of _ ?orig]) (simp add: Let_def)
qed

lemma unique_iff_strand_distinct:
  assumes idx: "map tri_nuc_idx orig = [0 ..< length orig]"
  shows "unique_context_index (orig @ map reverse_complement_row orig) \<longleftrightarrow> strand_distinct orig"
proof
  have nth_idx: "tri_nuc_idx (orig ! i) = i" if "i < length orig" for i
  proof -
    have "map tri_nuc_idx orig ! i = [0 ..< length orig] ! i" using idx by simp
    then show ?thesis using that by simp
  qed
  {
    assume u: "unique_context_index (orig @ map reverse_complement_row orig)"
    show "strand_distinct orig"
      unfolding strand_distinct_def
    proof (intro allI impI conjI)
      fix i j assume i: "i < length orig" and j: "j < length orig" and ne: "i \<noteq> j"
      have mi: "orig ! i \<in> set (orig @ map reverse_complement_row orig)" using i by simp
      have mj: "orig ! j \<in> set (orig @ map reverse_complement_row orig)" using j by simp
      have mj': "reverse_complement_row (orig ! j) \<in> set (orig @ map reverse_complement_row orig)"
        using j by simp
      show "sig_triple (orig ! i) \<noteq> sig_triple (orig ! j)"
      proof
        assume "sig_triple (orig ! i) = sig_triple (orig ! j)"
        with u mi mj have "tri_nuc_idx (orig ! i) = tri_nuc_idx (orig ! j)"
          unfolding unique_context_index_def by blast
        then show False using nth_idx [OF i] nth_idx [OF j] ne by simp
      qed
      show "sig_triple (orig ! i) \<noteq> reverse_complement_triple (sig_triple (orig ! j))"
      proof
        assume "sig_triple (orig ! i) = reverse_complement_triple (sig_triple (orig ! j))"
        then have "sig_triple (orig ! i) = sig_triple (reverse_complement_row (orig ! j))"
          by (simp add: sig_triple_reverse_complement_row)
        with u mi mj' have "tri_nuc_idx (orig ! i) = tri_nuc_idx (reverse_complement_row (orig ! j))"
          unfolding unique_context_index_def by blast
        then show False
          using nth_idx [OF i] nth_idx [OF j] ne by (simp add: tri_nuc_idx_reverse_complement_row)
      qed
    qed
  }
  {
    assume s: "strand_distinct orig"
    have eq_triple: "i = j"
      if "i < length orig" "j < length orig" "sig_triple (orig ! i) = sig_triple (orig ! j)" for i j
      using s that unfolding strand_distinct_def by blast
    have eq_rc: "i = j"
      if "i < length orig" "j < length orig"
         "sig_triple (orig ! i) = reverse_complement_triple (sig_triple (orig ! j))" for i j
      using s that unfolding strand_distinct_def by blast
    have classify: "\<exists>i < length orig. r = orig ! i \<or> r = reverse_complement_row (orig ! i)"
      if "r \<in> set (orig @ map reverse_complement_row orig)" for r
      using that by (auto simp: in_set_conv_nth)
    show "unique_context_index (orig @ map reverse_complement_row orig)"
      unfolding unique_context_index_def
    proof (intro ballI impI)
      fix r1 r2
      assume r1: "r1 \<in> set (orig @ map reverse_complement_row orig)"
        and r2: "r2 \<in> set (orig @ map reverse_complement_row orig)"
        and eq: "sig_triple r1 = sig_triple r2"
      from classify [OF r1] obtain i where i: "i < length orig"
        and c1: "r1 = orig ! i \<or> r1 = reverse_complement_row (orig ! i)" by blast
      from classify [OF r2] obtain j where j: "j < length orig"
        and c2: "r2 = orig ! j \<or> r2 = reverse_complement_row (orig ! j)" by blast
      have i1: "tri_nuc_idx r1 = i" using c1 nth_idx [OF i]
        by (auto simp: tri_nuc_idx_reverse_complement_row)
      have j2: "tri_nuc_idx r2 = j" using c2 nth_idx [OF j]
        by (auto simp: tri_nuc_idx_reverse_complement_row)
      have "i = j"
      proof -
        consider (oo) "r1 = orig ! i" "r2 = orig ! j"
          | (orc) "r1 = orig ! i" "r2 = reverse_complement_row (orig ! j)"
          | (rco) "r1 = reverse_complement_row (orig ! i)" "r2 = orig ! j"
          | (rcrc) "r1 = reverse_complement_row (orig ! i)" "r2 = reverse_complement_row (orig ! j)"
          using c1 c2 by blast
        then show ?thesis
        proof cases
          case oo
          then show ?thesis using eq eq_triple [OF i j] by simp
        next
          case orc
          then show ?thesis using eq eq_rc [OF i j] by (simp add: sig_triple_reverse_complement_row)
        next
          case rco
          then have "sig_triple (orig ! j) = reverse_complement_triple (sig_triple (orig ! i))"
            using eq by (simp add: sig_triple_reverse_complement_row)
          then show ?thesis using eq_rc [OF j i] by simp
        next
          case rcrc
          then have "reverse_complement_triple (sig_triple (orig ! i))
                     = reverse_complement_triple (sig_triple (orig ! j))"
            using eq by (simp add: sig_triple_reverse_complement_row)
          then have "sig_triple (orig ! i) = sig_triple (orig ! j)"
            by (metis reverse_complement_triple_involution)
          then show ?thesis using eq_triple [OF i j] by simp
        qed
      qed
      then show "tri_nuc_idx r1 = tri_nuc_idx r2" using i1 j2 by simp
    qed
  }
qed

text \<open>
  For any table on which \<open>load_signature_probabilities\<close> returns: the lookup holds the row
  \<open>i\<close> of the table in original orientation at position \<open>i\<close> and its reverse complement at
  position \<open>n + i\<close>, both with the context index \<open>i\<close>; and the lookup is a function of the
  triple exactly when no two different rows of the table have the same triple or triples
  that are reverse complements of each other.
\<close>

lemma context_lookup_rows:
  assumes "load_signature_probabilities file = Inr (sigs, sig_prob)"
  shows "length sigs = 2 * length (file_rows file)
         \<and> (\<forall>i < length (file_rows file).
               tri_nuc_idx (sigs ! i) = i
               \<and> tri_nuc_idx (sigs ! (length (file_rows file) + i)) = i
               \<and> sig_triple (sigs ! (length (file_rows file) + i))
                   = reverse_complement_triple (sig_triple (sigs ! i))
               \<and> tri_nucleotide_context (sigs ! i) = Trinucleotide (file_rows file ! i))
         \<and> (unique_context_index sigs
              \<longleftrightarrow> strand_distinct (take (length (file_rows file)) sigs))"
proof -
  let ?n = "length (file_rows file)"
  from load_sigs_shape [OF assms] obtain orig where
    sigs: "sigs = orig @ map reverse_complement_row orig" and
    len: "length orig = ?n" and
    idx: "map tri_nuc_idx orig = [0 ..< ?n]" and
    ctx: "map tri_nucleotide_context orig = map Trinucleotide (file_rows file)"
    by blast
  have nth_idx: "tri_nuc_idx (orig ! i) = i" if "i < ?n" for i
  proof -
    have "map tri_nuc_idx orig ! i = [0 ..< ?n] ! i" using idx by simp
    then show ?thesis using that len by simp
  qed
  have nth_ctx: "tri_nucleotide_context (orig ! i) = Trinucleotide (file_rows file ! i)" if "i < ?n" for i
  proof -
    have "map tri_nucleotide_context orig ! i = map Trinucleotide (file_rows file) ! i"
      using ctx by simp
    then show ?thesis using that len by simp
  qed
  have a: "length sigs = 2 * ?n" using sigs len by simp
  have b: "tri_nuc_idx (sigs ! i) = i
           \<and> tri_nuc_idx (sigs ! (?n + i)) = i
           \<and> sig_triple (sigs ! (?n + i)) = reverse_complement_triple (sig_triple (sigs ! i))
           \<and> tri_nucleotide_context (sigs ! i) = Trinucleotide (file_rows file ! i)"
    if "i < ?n" for i
  proof -
    have o: "sigs ! i = orig ! i" using sigs that len by (simp add: nth_append)
    have r: "sigs ! (?n + i) = reverse_complement_row (orig ! i)"
      using sigs that len by (simp add: nth_append)
    show ?thesis
      using o r nth_idx [OF that] nth_ctx [OF that]
      by (simp add: tri_nuc_idx_reverse_complement_row sig_triple_reverse_complement_row)
  qed
  have tk: "take ?n sigs = orig" using sigs len by simp
  have c: "unique_context_index sigs \<longleftrightarrow> strand_distinct (take ?n sigs)"
    using unique_iff_strand_distinct [of orig] idx len sigs tk by simp
  show ?thesis using a b c by blast
qed

subsection \<open>The reference table and the uniqueness of the context index\<close>

text \<open>
  Modelled from the spec: the layout of the packaged reference table
  \<open>data/signatures_probabilities.tsv\<close>, which \<open>load_signature_probabilities\<close> reads and which
  is not part of the source. The table has one row per context, 96 of them: the six
  substitution types, written \<open>X>Y\<close> with the pyrimidine of the base pair as reference base,
  each with the sixteen pairs of flanking bases. Of this layout the definition keeps what
  the lookup depends on: every substitution type is one of the six, and no two rows have
  the same substitution type and trinucleotide.
\<close>

definition substitution_types :: "string list" where
  "substitution_types = [''C>A'', ''C>G'', ''C>T'', ''T>A'', ''T>C'', ''T>G'']"

definition cosmic_layout :: "signature_file \<Rightarrow> bool" where
  "cosmic_layout file =
     (list_all (\<lambda>r. Substitution_Type r \<in> set substitution_types) (file_rows file)
      \<and> distinct (map (\<lambda>r. (Substitution_Type r, Trinucleotide r)) (file_rows file)))"

lemma apply_series_total:
  "(\<And>x. x \<in> set xs \<Longrightarrow> \<exists>y. f x = Inr y) \<Longrightarrow> \<exists>ys. apply_series f xs = Inr ys"
proof (induction xs)
  case Nil
  then show ?case by simp
next
  case (Cons x xs)
  from Cons.prems [of x] obtain y where y: "f x = Inr y" by auto
  from Cons.IH Cons.prems obtain ys where ys: "apply_series f xs = Inr ys" by auto
  show ?case using y ys by simp
qed

lemma split_substitution_type:
  assumes "s \<in> set substitution_types"
  shows "\<exists>r a. getitem (str_split CHR ''>'' s) 0 = Inr r
               \<and> getitem (str_split CHR ''>'' s) 1 = Inr a
               \<and> (r = ''C'' \<or> r = ''T'')
               \<and> s = r @ ''>'' @ a"
  using assms by (auto simp: substitution_types_def getitem_def)

lemma load_cosmic_layout_returns:
  assumes "cosmic_layout file"
  shows "\<exists>sigs sig_prob. load_signature_probabilities file = Inr (sigs, sig_prob)"
proof -
  let ?subs = "map Substitution_Type (file_rows file)"
  have mem: "s \<in> set substitution_types" if "s \<in> set ?subs" for s
    using assms that by (auto simp: cosmic_layout_def list_all_iff)
  have "\<exists>refs. apply_series (\<lambda>a. getitem (str_split CHR ''>'' a) 0) ?subs = Inr refs"
    by (rule apply_series_total) (use mem split_substitution_type in blast)
  moreover have "\<exists>alts. apply_series (\<lambda>a. getitem (str_split CHR ''>'' a) 1) ?subs = Inr alts"
    by (rule apply_series_total) (use mem split_substitution_type in blast)
  ultimately show ?thesis
    by (auto simp: load_signature_probabilities_def Let_def)
qed

lemma load_sigs_fields:
  assumes "load_signature_probabilities file = Inr (sigs, sig_prob)"
    and "i < length (file_rows file)"
  shows "getitem (str_split CHR ''>'' (Substitution_Type (file_rows file ! i))) 0 = Inr (ref (sigs ! i))"
    and "getitem (str_split CHR ''>'' (Substitution_Type (file_rows file ! i))) 1 = Inr (alt (sigs ! i))"
    and "tri_nucleotide_context (sigs ! i) = Trinucleotide (file_rows file ! i)"
proof -
  let ?rows = "file_rows file"
  let ?subs = "map Substitution_Type ?rows"
  from assms(1) obtain refs alts where
    refs: "apply_series (\<lambda>a. getitem (str_split CHR ''>'' a) 0) ?subs = Inr refs" and
    alts: "apply_series (\<lambda>a. getitem (str_split CHR ''>'' a) 1) ?subs = Inr alts" and
    sigs: "sigs = (let sig1 = map make_sig_row (zip [0 ..< length ?rows] (zip refs (zip alts (map Trinucleotide ?rows))))
                   in sig1 @ map reverse_complement_row sig1)"
    by (auto simp: load_signature_probabilities_def Let_def reverse_complement_row_def comp_def
             split: sum.splits)
  from apply_series_Inr [OF refs] assms(2)
  have lr: "length refs = length ?rows"
    and r: "getitem (str_split CHR ''>'' (Substitution_Type (?rows ! i))) 0 = Inr (refs ! i)"
    by simp_all
  from apply_series_Inr [OF alts] assms(2)
  have la: "length alts = length ?rows"
    and a: "getitem (str_split CHR ''>'' (Substitution_Type (?rows ! i))) 1 = Inr (alts ! i)"
    by simp_all
  have row: "sigs ! i = make_sig_row (i, refs ! i, alts ! i, Trinucleotide (?rows ! i))"
    using sigs lr la assms(2) by (simp add: Let_def nth_append)
  show "getitem (str_split CHR ''>'' (Substitution_Type (?rows ! i))) 0 = Inr (ref (sigs ! i))"
    using r row by (simp add: make_sig_row_def)
  show "getitem (str_split CHR ''>'' (Substitution_Type (?rows ! i))) 1 = Inr (alt (sigs ! i))"
    using a row by (simp add: make_sig_row_def)
  show "tri_nucleotide_context (sigs ! i) = Trinucleotide (?rows ! i)"
    using row by (simp add: make_sig_row_def)
qed

lemma reverse_complement_pyrimidine:
  "r = ''C'' \<or> r = ''T'' \<Longrightarrow> r' = ''C'' \<or> r' = ''T'' \<Longrightarrow> r \<noteq> reverse_complement r'"
  by (auto simp: reverse_complement_map complement_def)

lemma cosmic_layout_strand_distinct:
  assumes load: "load_signature_probabilities file = Inr (sigs, sig_prob)"
    and layout: "cosmic_layout file"
  shows "strand_distinct (take (length (file_rows file)) sigs)"
proof -
  let ?rows = "file_rows file"
  let ?n = "length ?rows"
  have len: "length sigs = 2 * ?n"
    using context_lookup_rows [OF load] by simp
  have parse: "\<exists>r a. ref (sigs ! i) = r \<and> alt (sigs ! i) = a \<and> (r = ''C'' \<or> r = ''T'')
                 \<and> Substitution_Type (?rows ! i) = r @ ''>'' @ a" if "i < ?n" for i
  proof -
    have "Substitution_Type (?rows ! i) \<in> set substitution_types"
      using layout that by (auto simp: cosmic_layout_def list_all_iff)
    from split_substitution_type [OF this] load_sigs_fields(1,2) [OF load that]
    show ?thesis by auto
  qed
  show ?thesis
    unfolding strand_distinct_def
  proof (intro allI impI conjI)
    fix i j
    assume "i < length (take ?n sigs)" "j < length (take ?n sigs)" and ne: "i \<noteq> j"
    then have i: "i < ?n" and j: "j < ?n" using len by simp_all
    have ti: "take ?n sigs ! i = sigs ! i" and tj: "take ?n sigs ! j = sigs ! j"
      using i j by simp_all
    from parse [OF i] obtain ri ai where pi: "ref (sigs ! i) = ri" "alt (sigs ! i) = ai"
      "ri = ''C'' \<or> ri = ''T''" "Substitution_Type (?rows ! i) = ri @ ''>'' @ ai" by blast
    from parse [OF j] obtain rj aj where pj: "ref (sigs ! j) = rj" "alt (sigs ! j) = aj"
      "rj = ''C'' \<or> rj = ''T''" "Substitution_Type (?rows ! j) = rj @ ''>'' @ aj" by blast
    show "sig_triple (take ?n sigs ! i) \<noteq> sig_triple (take ?n sigs ! j)"
    proof
      assume "sig_triple (take ?n sigs ! i) = sig_triple (take ?n sigs ! j)"
      then have e: "ref (sigs ! i) = ref (sigs ! j)" "alt (sigs ! i) = alt (sigs ! j)"
        "tri_nucleotide_context (sigs ! i) = tri_nucleotide_context (sigs ! j)"
        using ti tj by (simp_all add: sig_triple_def)
      have "Substitution_Type (?rows ! i) = Substitution_Type (?rows ! j)"
        using e pi pj by simp
      moreover have "Trinucleotide (?rows ! i) = Trinucleotide (?rows ! j)"
        using e(3) load_sigs_fields(3) [OF load i] load_sigs_fields(3) [OF load j] by simp
      ultimately have "map (\<lambda>r. (Substitution_Type r, Trinucleotide r)) ?rows ! i
                       = map (\<lambda>r. (Substitution_Type r, Trinucleotide r)) ?rows ! j"
        using i j by simp
      moreover have "distinct (map (\<lambda>r. (Substitution_Type r, Trinucleotide r)) ?rows)"
        using layout by (simp add: cosmic_layout_def)
      ultimately have "i = j"
        using nth_eq_iff_index_eq [of "map (\<lambda>r. (Substitution_Type r, Trinucleotide r)) ?rows" i j] i j
        by simp
      with ne show False by simp
    qed
    show "sig_triple (take ?n sigs ! i) \<noteq> reverse_complement_triple (sig_triple (take ?n sigs ! j))"
    proof
      assume "sig_triple (take ?n sigs ! i) = reverse_complement_triple (sig_triple (take ?n sigs ! j))"
      then have "ref (sigs ! i) = reverse_complement (ref (sigs ! j))"
        using ti tj by (simp add: sig_triple_def reverse_complement_triple_def)
      then show False
        using reverse_complement_pyrimidine [OF pi(3) pj(3)] pi(1) pj(1) by simp
    qed
  qed
qed

text \<open>
  Claim C8. On the reference table, \<open>load_signature_probabilities\<close> returns a lookup in which
  the row in original orientation (position \<open>i\<close>) and the corresponding reverse-complemented
  row (position \<open>n + i\<close>) carry the same context index \<open>i\<close>, and in which every (ref, alt,
  trinucleotide context) triple maps to exactly one context index: two rows of the lookup
  with the same triple have the same index.
\<close>

theorem context_lookup_unique_index:
  assumes "cosmic_layout file"
  shows "\<exists>sigs sig_prob.
           load_signature_probabilities file = Inr (sigs, sig_prob)
           \<and> length sigs = 2 * length (file_rows file)
           \<and> (\<forall>i < length (file_rows file).
                 tri_nuc_idx (sigs ! i) = i
                 \<and> tri_nuc_idx (sigs ! (length (file_rows file) + i)) = i
                 \<and> sig_triple (sigs ! (length (file_rows file) + i))
                     = reverse_complement_triple (sig_triple (sigs ! i))
                 \<and> tri_nucleotide_context (sigs ! i) = Trinucleotide (file_rows file ! i))
           \<and> unique_context_index sigs"
proof -
  from load_cosmic_layout_returns [OF assms] obtain sigs sig_prob where
    load: "load_signature_probabilities file = Inr (sigs, sig_prob)" by blast
  have "unique_context_index sigs"
    using context_lookup_rows [OF load] cosmic_layout_strand_distinct [OF load assms] by simp
  with context_lookup_rows [OF load] load show ?thesis by blast
qed

text \<open>The first rows of the reference table.\<close>

definition cosmic_head_file :: signature_file where
  "cosmic_head_file =
     \<lparr>other_columns = [''Signature 1'', ''Signature 2'', ''Unnamed: 33''],
      file_rows = [\<lparr>Trinucleotide = ''ACA'', Substitution_Type = ''C>A'', cell = (\<lambda>c. 1 / 100)\<rparr>,
                   \<lparr>Trinucleotide = ''ACC'', Substitution_Type = ''C>A'', cell = (\<lambda>c. 1 / 100)\<rparr>,
                   \<lparr>Trinucleotide = ''ATA'', Substitution_Type = ''T>G'', cell = (\<lambda>c. 1 / 100)\<rparr>]\<rparr>"

definition cosmic_head_sigs :: "sig_row list" where
  "cosmic_head_sigs =
     [\<lparr>tri_nuc_idx = 0, ref = ''C'', alt = ''A'', tri_nucleotide_context = ''ACA''\<rparr>,
      \<lparr>tri_nuc_idx = 1, ref = ''C'', alt = ''A'', tri_nucleotide_context = ''ACC''\<rparr>,
      \<lparr>tri_nuc_idx = 2, ref = ''T'', alt = ''G'', tri_nucleotide_context = ''ATA''\<rparr>,
      \<lparr>tri_nuc_idx = 0, ref = ''G'', alt = ''T'', tri_nucleotide_context = ''TGT''\<rparr>,
      \<lparr>tri_nuc_idx = 1, ref = ''G'', alt = ''T'', tri_nucleotide_context = ''GGT''\<rparr>,
      \<lparr>tri_nuc_idx = 2, ref = ''A'', alt = ''C'', tri_nucleotide_context = ''TAT''\<rparr>]"

definition cosmic_head_prob :: "(nat, string, real) frame" where
  "cosmic_head_prob =
     \<lparr>frame_index = [0, 1, 2], frame_columns = [''Signature 1'', ''Signature 2''],
      frame_values = [[1 / 100, 1 / 100], [1 / 100, 1 / 100], [1 / 100, 1 / 100]]\<rparr>"

lemma load_cosmic_head:
  "load_signature_probabilities cosmic_head_file = Inr (cosmic_head_sigs, cosmic_head_prob)"
  by (simp add: load_signature_probabilities_def cosmic_head_file_def cosmic_head_sigs_def
      cosmic_head_prob_def Let_def getitem_def make_sig_row_def startswith_def
      reverse_complement_map complement_def upt_rec [of 0] upt_rec [of 1] upt_rec [of 2])

theorem context_lookup_unique_index_witness:
  "cosmic_layout cosmic_head_file
   \<and> load_signature_probabilities cosmic_head_file = Inr (cosmic_head_sigs, cosmic_head_prob)
   \<and> length cosmic_head_sigs = 6
   \<and> tri_nuc_idx (cosmic_head_sigs ! 1) = 1
   \<and> tri_nuc_idx (cosmic_head_sigs ! 4) = 1
   \<and> sig_triple (cosmic_head_sigs ! 4) = reverse_complement_triple (sig_triple (cosmic_head_sigs ! 1))
   \<and> unique_context_index cosmic_head_sigs"
proof -
  have layout: "cosmic_layout cosmic_head_file"
    by (simp add: cosmic_layout_def cosmic_head_file_def substitution_types_def)
  have n: "length (file_rows cosmic_head_file) = 3" by (simp add: cosmic_head_file_def)
  have one: "(1::nat) < 3" by simp
  from context_lookup_unique_index [OF layout] load_cosmic_head n
  have len: "length cosmic_head_sigs = 2 * 3"
    and rows: "\<forall>i < 3. tri_nuc_idx (cosmic_head_sigs ! i) = i
               \<and> tri_nuc_idx (cosmic_head_sigs ! (3 + i)) = i
               \<and> sig_triple (cosmic_head_sigs ! (3 + i))
                   = reverse_complement_triple (sig_triple (cosmic_head_sigs ! i))
               \<and> tri_nucleotide_context (cosmic_head_sigs ! i) = Trinucleotide (file_rows cosmic_head_file ! i)"
    and u: "unique_context_index cosmic_head_sigs"
    by auto
  from rows one have r1: "tri_nuc_idx (cosmic_head_sigs ! 1) = 1
               \<and> tri_nuc_idx (cosmic_head_sigs ! (3 + 1)) = 1
               \<and> sig_triple (cosmic_head_sigs ! (3 + 1))
                   = reverse_complement_triple (sig_triple (cosmic_head_sigs ! 1))"
    by blast
  show ?thesis using layout load_cosmic_head len r1 u by simp
qed

subsection \<open>\<open>test_ancestral_descendant\<close>\<close>

text \<open>
  A series is a list of (index label, value) pairs. \<open>data.groupby(by=f)\<close> applies \<open>f\<close> to
  the index labels; listing it gives one (key, sub-series) pair per key that occurs, keys
  in ascending order, each sub-series in the order of the series.
\<close>

definition endswith :: "string \<Rightarrow> string \<Rightarrow> bool" where
  "endswith a suffix = (length suffix \<le> length a \<and> drop (length a - length suffix) a = suffix)"

definition groupby_index ::
  "(string \<Rightarrow> 'b::linorder) \<Rightarrow> (string \<times> 'v) list \<Rightarrow> ('b \<times> (string \<times> 'v) list) list" where
  "groupby_index by data =
     map (\<lambda>k. (k, filter (\<lambda>r. by (fst r) = k) data)) (sort (remdups (map (\<lambda>r. by (fst r)) data)))"

definition dict_getitem :: "('k \<rightharpoonup> 'v) \<Rightarrow> 'k \<Rightarrow> error + 'v" where
  "dict_getitem d k = (case d k of None \<Rightarrow> Inl KeyError | Some v \<Rightarrow> Inr v)"

text \<open>
  \<^verbatim>\<open>
  def test_ancestral_descendant(data):
      data = dict(list(data.groupby(by=lambda a: a.endswith('Node0'))))
      return scipy.stats.mannwhitneyu(data[True], data[False])[1]
  \<close>
  \<open>scipy.stats.mannwhitneyu\<close> is the library's routine, called on the values of the two
  sub-series with its default options; it returns the pair (statistic, p-value) or raises.
\<close>

definition test_ancestral_descendant ::
  "(real list \<Rightarrow> real list \<Rightarrow> error + real \<times> real) \<Rightarrow> (string \<times> real) list \<Rightarrow> error + real" where
  "test_ancestral_descendant mannwhitneyu data =
     (let data = dict_of (groupby_index (\<lambda>a. endswith a ''Node0'') data)
      in case dict_getitem data True of
           Inl e \<Rightarrow> Inl e
         | Inr x \<Rightarrow>
        (case dict_getitem data False of
           Inl e \<Rightarrow> Inl e
         | Inr y \<Rightarrow>
        (case mannwhitneyu (map snd x) (map snd y) of
           Inl e \<Rightarrow> Inl e
         | Inr result \<Rightarrow> Inr (snd result))))"

text \<open>The two classes of the naming convention.\<close>

definition ancestral :: "(string \<times> 'v) list \<Rightarrow> 'v list" where
  "ancestral data = map snd (filter (\<lambda>r. endswith (fst r) ''Node0'') data)"

definition descendant :: "(string \<times> 'v) list \<Rightarrow> 'v list" where
  "descendant data = map snd (filter (\<lambda>r. \<not> endswith (fst r) ''Node0'') data)"

lemma fold_upd_keyed:
  "fold (\<lambda>(k, v) m. m(k \<mapsto> v)) (map (\<lambda>k. (k, f k)) ks) m
     = (\<lambda>k. if k \<in> set ks then Some (f k) else m k)"
  by (induction ks arbitrary: m) (auto simp: fun_eq_iff)

lemma dict_of_keyed:
  "dict_of (map (\<lambda>k. (k, f k)) ks) k = (if k \<in> set ks then Some (f k) else None)"
  by (simp add: dict_of_def fold_upd_keyed)

lemma dict_of_groupby_index:
  "dict_of (groupby_index by data) k
     = (if k \<in> (\<lambda>r. by (fst r)) ` set data then Some (filter (\<lambda>r. by (fst r) = k) data) else None)"
  by (simp add: groupby_index_def dict_of_keyed)

text \<open>
  A stand-in for the library's test, for evaluating the functions on concrete series: it
  gives the size of its first argument and the distance between the sums of its arguments.
\<close>

definition probe_test :: "real list \<Rightarrow> real list \<Rightarrow> error + real \<times> real" where
  "probe_test x y = Inr (real (length x), \<bar>sum_list x - sum_list y\<bar>)"

definition node_series :: "(string \<times> real) list" where
  "node_series = [(''P1_Node0'', 1 / 10), (''P1_Node1'', 5 / 10), (''P2_Node0'', 2 / 10), (''P2_Node3'', 7 / 10)]"

definition root_series :: "(string \<times> real) list" where
  "root_series = [(''P1_Node0'', 1 / 10), (''P2_Node0'', 2 / 10)]"

text \<open>
  What the function does with the library's routine. When the index of the series has at
  least one identifier ending in \<open>Node0\<close> and at least one not ending in it, the routine is
  called on the values of the identifiers ending in \<open>Node0\<close> (first argument) and the values
  of all other identifiers (second argument), and the second component of its result is
  returned. The call passes no \<open>alternative\<close> option: which test the value is the p-value
  of is the library's default, not something this module decides.
\<close>

lemma test_ancestral_descendant_partition:
  assumes "ancestral data \<noteq> []" and "descendant data \<noteq> []"
  shows "test_ancestral_descendant mannwhitneyu data
           = (case mannwhitneyu (ancestral data) (descendant data) of
                Inl e \<Rightarrow> Inl e
              | Inr result \<Rightarrow> Inr (snd result))"
proof -
  from assms(1) have t: "True \<in> (\<lambda>r. endswith (fst r) ''Node0'') ` set data"
    by (auto simp: ancestral_def filter_empty_conv image_iff)
  from assms(2) have f: "False \<in> (\<lambda>r. endswith (fst r) ''Node0'') ` set data"
    by (auto simp: descendant_def filter_empty_conv image_iff)
  show ?thesis
    using t f
    by (simp add: test_ancestral_descendant_def dict_getitem_def dict_of_groupby_index
        ancestral_def descendant_def)
qed

lemma test_ancestral_descendant_partition_example:
  "ancestral node_series = [1 / 10, 2 / 10] \<and> descendant node_series = [5 / 10, 7 / 10]
   \<and> test_ancestral_descendant probe_test node_series = Inr (9 / 10)"
proof -
  have a: "ancestral node_series = [1 / 10, 2 / 10]"
    by (simp add: ancestral_def node_series_def endswith_def)
  have d: "descendant node_series = [5 / 10, 7 / 10]"
    by (simp add: descendant_def node_series_def endswith_def)
  have "test_ancestral_descendant probe_test node_series
          = (case probe_test (ancestral node_series) (descendant node_series) of
               Inl e \<Rightarrow> Inl e
             | Inr result \<Rightarrow> Inr (snd result))"
    using test_ancestral_descendant_partition [of node_series probe_test] a d by simp
  then show ?thesis using a d by (simp add: probe_test_def)
qed

text \<open>
  Claim C6. When either class is empty, \<open>test_ancestral_descendant\<close> fails: the lookup of
  the missing class in the dictionary raises \<open>KeyError\<close>, whatever the library's test would
  do.
\<close>

theorem test_ancestral_descendant_empty_class:
  assumes "ancestral data = [] \<or> descendant data = []"
  shows "test_ancestral_descendant mannwhitneyu data = Inl KeyError"
proof -
  from assms consider (a) "ancestral data = []" | (d) "descendant data = []" by blast
  then show ?thesis
  proof cases
    case a
    then have "True \<notin> (\<lambda>r. endswith (fst r) ''Node0'') ` set data"
      by (auto simp: ancestral_def filter_empty_conv image_iff)
    then show ?thesis
      by (simp add: test_ancestral_descendant_def dict_getitem_def dict_of_groupby_index)
  next
    case d
    then have nf: "False \<notin> (\<lambda>r. endswith (fst r) ''Node0'') ` set data"
      by (auto simp: descendant_def filter_empty_conv image_iff)
    have n: "dict_of (groupby_index (\<lambda>a. endswith a ''Node0'') data) False = None"
      by (simp only: dict_of_groupby_index nf if_False)
    show ?thesis
      by (simp add: test_ancestral_descendant_def Let_def dict_getitem_def n split: option.splits)
  qed
qed

theorem test_ancestral_descendant_empty_class_witness:
  "descendant root_series = [] \<and> test_ancestral_descendant probe_test root_series = Inl KeyError"
proof -
  have d: "descendant root_series = []"
    by (simp add: descendant_def root_series_def endswith_def)
  then show ?thesis
    using test_ancestral_descendant_empty_class [of root_series probe_test] by simp
qed

subsection \<open>\<open>plot_signature_boxplots\<close>: the signatures kept for plotting\<close>

text \<open>
  \<^verbatim>\<open>
  def plot_signature_boxplots(sample_sig, pvalue_threshold=0.01):
      test_pvalue = sample_sig.apply(test_ancestral_descendant)
      data = sample_sig.loc[:,test_pvalue[test_pvalue < pvalue_threshold].index]
  \<close>
  The figure is drawn from \<open>data\<close>, one facet per column of it; the drawing itself is the
  plotting library's and is not modelled. A missing \<open>pvalue_threshold\<close> is \<open>None\<close>.

  \<open>sample_sig.apply(f)\<close> calls \<open>f\<close> on every column as a series over the row labels and
  gives a series over the column labels. On a frame with no rows or no columns it does not:
  it tries \<open>f\<close> on the empty series, and gives a copy of the frame when that raises, and
  otherwise the series that has the value for every column label.
\<close>

definition frame_column :: "('r, 'c, 'v) frame \<Rightarrow> nat \<Rightarrow> ('r \<times> 'v) list" where
  "frame_column fr j = zip (frame_index fr) (map (\<lambda>row. row ! j) (frame_values fr))"

datatype ('r, 'c, 'v, 'w) applied = Reduced "('c \<times> 'w) list" | Copied "('r, 'c, 'v) frame"

definition frame_apply ::
  "(('r \<times> 'v) list \<Rightarrow> error + 'w) \<Rightarrow> ('r, 'c, 'v) frame \<Rightarrow> error + ('r, 'c, 'v, 'w) applied" where
  "frame_apply f fr =
     (if length (frame_columns fr) = 0 \<or> length (frame_index fr) = 0
      then (case f [] of
              Inl e \<Rightarrow> Inr (Copied fr)
            | Inr r \<Rightarrow> Inr (Reduced (map (\<lambda>c. (c, r)) (frame_columns fr))))
      else (case apply_series (\<lambda>j. f (frame_column fr j)) [0 ..< length (frame_columns fr)] of
              Inl e \<Rightarrow> Inl e
            | Inr ys \<Rightarrow> Inr (Reduced (zip (frame_columns fr) ys))))"

text \<open>
  \<open>fr.loc[:, labels]\<close>: for every label in turn, every column of that name; \<open>KeyError\<close> when
  a label is not a column of the frame.
\<close>

definition loc_columns :: "('r, 'c, 'v) frame \<Rightarrow> 'c list \<Rightarrow> error + ('r, 'c, 'v) frame" where
  "loc_columns fr labels =
     (if list_all (\<lambda>l. l \<in> set (frame_columns fr)) labels
      then
        let js = concat (map (\<lambda>l. filter (\<lambda>j. frame_columns fr ! j = l) [0 ..< length (frame_columns fr)]) labels)
        in Inr \<lparr>frame_index = frame_index fr,
                frame_columns = map (\<lambda>j. frame_columns fr ! j) js,
                frame_values = map (\<lambda>row. map (\<lambda>j. row ! j) js) (frame_values fr)\<rparr>
      else Inl KeyError)"

definition default_pvalue_threshold :: real where
  "default_pvalue_threshold = 1 / 100"

text \<open>
  When \<open>test_pvalue\<close> is a series, \<open>test_pvalue[test_pvalue < pvalue_threshold].index\<close> is the
  list of the column labels with a value below the threshold; when it is the copy of the
  frame, the comparison and the selection keep its shape and the index is its row index.
\<close>

definition plot_signature_boxplots ::
  "(real list \<Rightarrow> real list \<Rightarrow> error + real \<times> real) \<Rightarrow> (string, string, real) frame \<Rightarrow> real option
     \<Rightarrow> error + (string, string, real) frame" where
  "plot_signature_boxplots mannwhitneyu sample_sig pvalue_threshold_arg =
     (let pvalue_threshold =
            (case pvalue_threshold_arg of None \<Rightarrow> default_pvalue_threshold | Some t \<Rightarrow> t)
      in case frame_apply (test_ancestral_descendant mannwhitneyu) sample_sig of
           Inl e \<Rightarrow> Inl e
         | Inr (Reduced test_pvalue) \<Rightarrow>
             loc_columns sample_sig
               (map fst (filter (\<lambda>cp. snd cp < pvalue_threshold) test_pvalue))
         | Inr (Copied test_pvalue) \<Rightarrow>
             loc_columns sample_sig (frame_index test_pvalue))"

lemma test_ancestral_descendant_Nil: "test_ancestral_descendant mannwhitneyu [] = Inl KeyError"
  by (simp add: test_ancestral_descendant_def Let_def dict_getitem_def dict_of_groupby_index)

lemma loc_columns_Inr:
  assumes "loc_columns fr labels = Inr data"
  shows "set (frame_columns data) = set labels" and "set labels \<subseteq> set (frame_columns fr)"
proof -
  from assms have all: "list_all (\<lambda>l. l \<in> set (frame_columns fr)) labels"
    by (auto simp: loc_columns_def split: if_splits)
  then show sub: "set labels \<subseteq> set (frame_columns fr)"
    by (auto simp: list_all_iff)
  from assms all have cols: "frame_columns data
      = map (\<lambda>j. frame_columns fr ! j)
          (concat (map (\<lambda>l. filter (\<lambda>j. frame_columns fr ! j = l) [0 ..< length (frame_columns fr)]) labels))"
    by (auto simp: loc_columns_def Let_def)
  show "set (frame_columns data) = set labels"
  proof
    show "set (frame_columns data) \<subseteq> set labels"
      unfolding cols by auto
    show "set labels \<subseteq> set (frame_columns data)"
    proof
      fix l assume l: "l \<in> set labels"
      with sub have "l \<in> set (frame_columns fr)" by blast
      then obtain j where "j < length (frame_columns fr)" "frame_columns fr ! j = l"
        by (auto simp: in_set_conv_nth)
      with l show "l \<in> set (frame_columns data)"
        unfolding cols by force
    qed
  qed
qed

lemma set_below_threshold:
  assumes "length ys = length cols"
  shows "set (map fst (filter (\<lambda>cp. snd cp < t) (zip cols ys)))
           = {cols ! j | j. j < length cols \<and> ys ! j < (t::real)}"
  using assms by (auto simp: set_zip image_iff) force

text \<open>
  Claim C9. When \<open>plot_signature_boxplots\<close> gets as far as drawing, the columns of the data it
  draws are exactly the signature columns whose p-value, computed by
  \<open>test_ancestral_descendant\<close> on that column, is strictly below the threshold; the threshold
  is the caller's, and 0.01 when the caller gives none.
\<close>

theorem plot_signature_boxplots_retained:
  assumes "plot_signature_boxplots mannwhitneyu sample_sig pvalue_threshold_arg = Inr data"
  shows "set (frame_columns data)
           = {frame_columns sample_sig ! j | j.
                j < length (frame_columns sample_sig)
                \<and> (\<exists>p. test_ancestral_descendant mannwhitneyu (frame_column sample_sig j) = Inr p
                       \<and> p < (case pvalue_threshold_arg of None \<Rightarrow> 1 / 100 | Some t \<Rightarrow> t))}"
proof -
  let ?cols = "frame_columns sample_sig"
  let ?t = "case pvalue_threshold_arg of None \<Rightarrow> default_pvalue_threshold | Some t \<Rightarrow> t"
  let ?f = "\<lambda>j. test_ancestral_descendant mannwhitneyu (frame_column sample_sig j)"
  have "set (frame_columns data) = {?cols ! j | j. j < length ?cols \<and> (\<exists>p. ?f j = Inr p \<and> p < ?t)}"
  proof (cases "?cols = [] \<or> frame_index sample_sig = []")
    case True
    with assms have loc: "loc_columns sample_sig (frame_index sample_sig) = Inr data"
      by (simp add: plot_signature_boxplots_def frame_apply_def Let_def
          test_ancestral_descendant_Nil)
    have left: "set (frame_columns data) = {}"
      using loc_columns_Inr [OF loc] True by auto
    have right: "{?cols ! j | j. j < length ?cols \<and> (\<exists>p. ?f j = Inr p \<and> p < ?t)} = {}"
    proof (cases "?cols = []")
      case True
      then show ?thesis by simp
    next
      case False
      with \<open>?cols = [] \<or> frame_index sample_sig = []\<close> have "frame_index sample_sig = []" by simp
      then have "?f j = Inl KeyError" for j
        by (simp add: frame_column_def test_ancestral_descendant_Nil)
      then show ?thesis by simp
    qed
    show ?thesis using left right by simp
  next
    case False
    with assms obtain ys where
      ys: "apply_series ?f [0 ..< length ?cols] = Inr ys" and
      loc: "loc_columns sample_sig (map fst (filter (\<lambda>cp. snd cp < ?t) (zip ?cols ys))) = Inr data"
      by (auto simp: plot_signature_boxplots_def frame_apply_def Let_def split: sum.splits)
    from apply_series_Inr [OF ys] have len: "length ys = length ?cols"
      and nth: "\<forall>j < length ?cols. ?f j = Inr (ys ! j)"
      by simp_all
    let ?labels = "map fst (filter (\<lambda>cp. snd cp < ?t) (zip ?cols ys))"
    have labels: "set ?labels = {?cols ! j | j. j < length ?cols \<and> ys ! j < ?t}"
      by (rule set_below_threshold [OF len])
    have "set (frame_columns data) = set ?labels"
      by (rule loc_columns_Inr(1) [OF loc])
    also have "\<dots> = {?cols ! j | j. j < length ?cols \<and> (\<exists>p. ?f j = Inr p \<and> p < ?t)}"
      unfolding labels using nth by auto
    finally show ?thesis .
  qed
  then show ?thesis
    by (cases pvalue_threshold_arg) (simp_all add: default_pvalue_threshold_def)
qed

definition node_sig :: "(string, string, real) frame" where
  "node_sig =
     \<lparr>frame_index = [''P1_Node0'', ''P1_Node1''],
      frame_columns = [''1'', ''2'', ''3''],
      frame_values = [[100 / 1000, 500 / 1000, 510 / 1000],
                      [105 / 1000, 200 / 1000, 500 / 1000]]\<rparr>"

definition node_sig_kept :: "(string, string, real) frame" where
  "node_sig_kept =
     \<lparr>frame_index = [''P1_Node0'', ''P1_Node1''],
      frame_columns = [''1''],
      frame_values = [[100 / 1000], [105 / 1000]]\<rparr>"

lemma test_node_sig_columns:
  "test_ancestral_descendant probe_test (frame_column node_sig 0) = Inr (5 / 1000)"
  "test_ancestral_descendant probe_test (frame_column node_sig (Suc 0)) = Inr (300 / 1000)"
  "test_ancestral_descendant probe_test (frame_column node_sig (Suc (Suc 0))) = Inr (10 / 1000)"
  by (simp_all add: test_ancestral_descendant_def Let_def dict_getitem_def dict_of_groupby_index
      frame_column_def node_sig_def endswith_def probe_test_def)

lemma plot_node_sig: "plot_signature_boxplots probe_test node_sig None = Inr node_sig_kept"
proof -
  have cols: "frame_columns node_sig = [''1'', ''2'', ''3'']" by (simp add: node_sig_def)
  have rows: "frame_index node_sig = [''P1_Node0'', ''P1_Node1'']" by (simp add: node_sig_def)
  have up: "[0 ..< length (frame_columns node_sig)] = [0, 1, 2]"
    by (simp add: cols upt_rec [of 0] upt_rec [of 1] upt_rec [of 2])
  have pv: "frame_apply (test_ancestral_descendant probe_test) node_sig
              = Inr (Reduced [(''1'', 5 / 1000), (''2'', 300 / 1000), (''3'', 10 / 1000)])"
    by (simp add: frame_apply_def up test_node_sig_columns cols rows)
  have loc: "loc_columns node_sig [''1''] = Inr node_sig_kept"
    unfolding loc_columns_def up by (simp add: node_sig_def node_sig_kept_def)
  show ?thesis
    by (simp add: plot_signature_boxplots_def pv default_pvalue_threshold_def loc)
qed

text \<open>
  A frame with rows and no columns: \<open>apply\<close> gives back the frame, and selecting its row
  labels as columns raises.
\<close>

lemma plot_no_columns:
  "plot_signature_boxplots probe_test
     \<lparr>frame_index = [''P1_Node0'', ''P1_Node1''], frame_columns = [], frame_values = [[], []]\<rparr> None
   = Inl KeyError"
  by (simp add: plot_signature_boxplots_def frame_apply_def loc_columns_def
      test_ancestral_descendant_Nil)

theorem plot_signature_boxplots_retained_witness:
  "plot_signature_boxplots probe_test node_sig None = Inr node_sig_kept
   \<and> {frame_columns node_sig ! j | j.
        j < length (frame_columns node_sig)
        \<and> (\<exists>p. test_ancestral_descendant probe_test (frame_column node_sig j) = Inr p
               \<and> p < (case None of None \<Rightarrow> 1 / 100 | Some t \<Rightarrow> t))} = {''1''}"
proof -
  have "set (frame_columns node_sig_kept) = {''1''}" by (simp add: node_sig_kept_def)
  then show ?thesis
    using plot_signature_boxplots_retained [OF plot_node_sig] plot_node_sig by simp
qed

subsection \<open>\<open>fit_sample_signatures\<close>\<close>

text \<open>
  The function reads two columns of \<open>snvs_table\<close>: the grouping key, in the column named by
  \<open>subset_col\<close>, and \<open>tri_nuc_idx\<close>. A row of the table is the pair of the two, the key
  first. Group keys are of any ordered type (they are strings in the pipeline).

  \<open>groupby(keys).size()\<close> is the series of the number of rows of every key that occurs,
  keys in ascending order.
\<close>

definition groupby_size :: "'a::linorder list \<Rightarrow> ('a \<times> nat) list" where
  "groupby_size keys = map (\<lambda>k. (k, count_list keys k)) (sort (remdups keys))"

text \<open>
  \<open>table.set_index(col).loc[labels].reset_index()\<close>: for every label in turn, every row of
  that key.
\<close>

definition loc_rows :: "('k \<times> 'v) list \<Rightarrow> 'k list \<Rightarrow> ('k \<times> 'v) list" where
  "loc_rows table labels = concat (map (\<lambda>l. filter (\<lambda>r. fst r = l) table) labels)"

text \<open>
  \<open>unstack()\<close> of a series over (row key, column key) pairs with no pair repeated: the row
  keys that occur label the rows, the column keys that occur label the columns, both in
  ascending order, and a cell with no entry in the series is missing (NaN). \<open>fillna\<close> fills
  the missing cells and \<open>astype(int)\<close> converts the counts.
\<close>

definition unstack ::
  "(('r::linorder \<times> 'c::linorder) \<times> 'v) list \<Rightarrow> ('r, 'c, 'v option) frame" where
  "unstack series =
     (let index = sort (remdups (map (\<lambda>e. fst (fst e)) series));
          columns = sort (remdups (map (\<lambda>e. snd (fst e)) series))
      in \<lparr>frame_index = index,
          frame_columns = columns,
          frame_values = map (\<lambda>r. map (\<lambda>c. map_of series (r, c)) columns) index\<rparr>)"

definition fillna :: "'v \<Rightarrow> ('r, 'c, 'v option) frame \<Rightarrow> ('r, 'c, 'v) frame" where
  "fillna v fr =
     \<lparr>frame_index = frame_index fr,
      frame_columns = frame_columns fr,
      frame_values = map (map (\<lambda>x. case x of None \<Rightarrow> v | Some y \<Rightarrow> y)) (frame_values fr)\<rparr>"

definition astype_int :: "('r, 'c, nat) frame \<Rightarrow> ('r, 'c, int) frame" where
  "astype_int fr =
     \<lparr>frame_index = frame_index fr,
      frame_columns = frame_columns fr,
      frame_values = map (map int) (frame_values fr)\<rparr>"

text \<open>
  \<^verbatim>\<open>
  snv_counts = snvs_table.groupby(subset_col).size()
  snvs_table = snvs_table.set_index(subset_col).loc[snv_counts[snv_counts > 100].index].reset_index()
  \<close>
\<close>

definition filter_snv_counts :: "('k::linorder \<times> nat) list \<Rightarrow> ('k \<times> nat) list" where
  "filter_snv_counts snvs_table =
     (let snv_counts = groupby_size (map fst snvs_table)
      in loc_rows snvs_table (map fst (filter (\<lambda>kc. snd kc > 100) snv_counts)))"

text \<open>
  \<^verbatim>\<open>
  tri_nuc_table = (snvs_table.groupby([subset_col, 'tri_nuc_idx'])
      .size().unstack().fillna(0).astype(int))
  \<close>
\<close>

definition tri_nuc_table :: "('k::linorder \<times> nat) list \<Rightarrow> ('k, nat, int) frame" where
  "tri_nuc_table snvs_table = astype_int (fillna 0 (unstack (groupby_size snvs_table)))"

text \<open>
  The topic model of the \<open>lda\<close> library, as the function sets it up, and the constructor
  \<open>pd.DataFrame(values, index=..., columns=...)\<close>, which raises \<open>ValueError\<close> when the shape
  of the values does not fit the labels. \<open>pd.DataFrame()\<close> is the empty frame.
\<close>

record lda_model =
  n_topics :: nat
  random_state :: nat
  n_iter :: nat
  alpha :: real
  components :: "real list list"

definition empty_frame :: "('r, 'c, 'v) frame" where
  "empty_frame = \<lparr>frame_index = [], frame_columns = [], frame_values = []\<rparr>"

definition data_frame :: "'v list list \<Rightarrow> 'r list \<Rightarrow> 'c list \<Rightarrow> error + ('r, 'c, 'v) frame" where
  "data_frame vals index columns =
     (if length vals = length index \<and> list_all (\<lambda>row. length row = length columns) vals
      then Inr \<lparr>frame_index = index, frame_columns = columns, frame_values = vals\<rparr>
      else Inl ValueError)"

text \<open>
  \<^verbatim>\<open>
  if len(tri_nuc_table.index) == 0:
      return pd.DataFrame()
  model = lda.LDA(n_topics=len(sig_prob.columns), random_state=0, n_iter=10000, alpha=0.01)
  model.components_ = sig_prob.values.T
  sample_sig = model.transform(tri_nuc_table.values, max_iter=1000)
  sample_sig = pd.DataFrame(sample_sig, index=tri_nuc_table.index, columns=sig_prob.columns)
  sample_sig.index.name = 'Sample'
  sample_sig.columns = [a[len('Signature '):] for a in sample_sig.columns]
  sample_sig.columns.name = 'Signature'
  return sample_sig
  \<close>
  \<open>transform\<close> is the library's inference routine: it gets the model, the count matrix and
  \<open>max_iter\<close>, and returns the matrix of topic proportions or raises. The names of the two
  axes are labels only and are left out.
\<close>

definition fit_sample_signatures ::
  "(lda_model \<Rightarrow> int list list \<Rightarrow> nat \<Rightarrow> error + real list list)
     \<Rightarrow> ('k::linorder \<times> nat) list \<Rightarrow> (nat, string, real) frame
     \<Rightarrow> error + ('k, string, real) frame" where
  "fit_sample_signatures transform snvs_table sig_prob =
     (let snvs_table = filter_snv_counts snvs_table;
          tri_nuc_table = tri_nuc_table snvs_table
      in if length (frame_index tri_nuc_table) = 0 then Inr empty_frame
         else
           let model = \<lparr>n_topics = length (frame_columns sig_prob), random_state = 0,
                         n_iter = 10000, alpha = 1 / 100,
                         components = transpose (frame_values sig_prob)\<rparr>
           in case transform model (frame_values tri_nuc_table) 1000 of
                Inl e \<Rightarrow> Inl e
              | Inr sample_sig \<Rightarrow>
             (case data_frame sample_sig (frame_index tri_nuc_table) (frame_columns sig_prob) of
                Inl e \<Rightarrow> Inl e
              | Inr sample_sig \<Rightarrow>
                  Inr (sample_sig\<lparr>frame_columns :=
                         map (\<lambda>a. drop (length ''Signature '') a) (frame_columns sample_sig)\<rparr>)))"

lemma groupby_size_keys: "map fst (groupby_size keys) = sort (remdups keys)"
  by (simp add: groupby_size_def comp_def)

lemma set_groupby_size: "set (groupby_size keys) = (\<lambda>k. (k, count_list keys k)) ` set keys"
  by (simp add: groupby_size_def)

lemma count_list_pos_mem: "0 < count_list keys k \<Longrightarrow> k \<in> set keys"
  using count_list_0_iff [of keys k] by (cases "k \<in> set keys") simp_all

lemma set_kept_labels:
  "set (map fst (filter (\<lambda>kc. snd kc > 100) (groupby_size keys))) = {k. 100 < count_list keys k}"
proof -
  have "set (map fst (filter (\<lambda>kc. snd kc > 100) (groupby_size keys)))
          = {k \<in> set keys. 100 < count_list keys k}"
    by (auto simp: set_groupby_size image_iff)
  also have "\<dots> = {k. 100 < count_list keys k}"
    using count_list_pos_mem [of keys] by auto
  finally show ?thesis .
qed

lemma set_loc_rows: "set (loc_rows table labels) = {r \<in> set table. fst r \<in> set labels}"
  by (auto simp: loc_rows_def)

lemma set_filter_snv_counts:
  "set (filter_snv_counts snvs_table)
     = {r \<in> set snvs_table. 100 < count_list (map fst snvs_table) (fst r)}"
  unfolding filter_snv_counts_def Let_def set_loc_rows set_kept_labels by simp

lemma frame_index_tri_nuc_table:
  "frame_index (tri_nuc_table snvs_table) = sort (remdups (map fst (sort (remdups snvs_table))))"
proof -
  have "map (\<lambda>e. fst (fst e)) (groupby_size snvs_table) = map fst (map fst (groupby_size snvs_table))"
    by simp
  then show ?thesis
    by (simp add: tri_nuc_table_def astype_int_def fillna_def unstack_def Let_def
        groupby_size_keys del: map_map)
qed

lemma frame_columns_tri_nuc_table:
  "frame_columns (tri_nuc_table snvs_table) = sort (remdups (map snd (sort (remdups snvs_table))))"
proof -
  have "map (\<lambda>e. snd (fst e)) (groupby_size snvs_table) = map snd (map fst (groupby_size snvs_table))"
    by simp
  then show ?thesis
    by (simp add: tri_nuc_table_def astype_int_def fillna_def unstack_def Let_def
        groupby_size_keys del: map_map)
qed

lemma set_frame_index_tri_nuc_table:
  "set (frame_index (tri_nuc_table snvs_table)) = fst ` set snvs_table"
  by (simp add: frame_index_tri_nuc_table)

lemma set_surviving_groups:
  "set (frame_index (tri_nuc_table (filter_snv_counts snvs_table)))
     = {k. 100 < count_list (map fst snvs_table) k}"
proof -
  have "fst ` {r \<in> set snvs_table. 100 < count_list (map fst snvs_table) (fst r)}
          = {k. 100 < count_list (map fst snvs_table) k}"
  proof (intro equalityI subsetI)
    fix k assume "k \<in> fst ` {r \<in> set snvs_table. 100 < count_list (map fst snvs_table) (fst r)}"
    then show "k \<in> {k. 100 < count_list (map fst snvs_table) k}" by auto
  next
    fix k assume "k \<in> {k. 100 < count_list (map fst snvs_table) k}"
    then have c: "100 < count_list (map fst snvs_table) k" by simp
    then have "k \<in> set (map fst snvs_table)" by (intro count_list_pos_mem) simp
    then obtain r where "r \<in> set snvs_table" "fst r = k" by auto
    with c show "k \<in> fst ` {r \<in> set snvs_table. 100 < count_list (map fst snvs_table) (fst r)}"
      by force
  qed
  then show ?thesis
    by (simp add: set_frame_index_tri_nuc_table set_filter_snv_counts)
qed

lemma frame_index_data_frame:
  "data_frame vals index columns = Inr fr \<Longrightarrow> frame_index fr = index"
  by (auto simp: data_frame_def split: if_splits)

lemma frame_index_fit_sample_signatures:
  assumes "fit_sample_signatures transform snvs_table sig_prob = Inr sample_sig"
  shows "frame_index sample_sig = frame_index (tri_nuc_table (filter_snv_counts snvs_table))"
proof (cases "frame_index (tri_nuc_table (filter_snv_counts snvs_table)) = []")
  case True
  with assms have "sample_sig = empty_frame"
    by (simp add: fit_sample_signatures_def Let_def)
  with True show ?thesis
    by (simp add: empty_frame_def)
next
  case False
  with assms show ?thesis
    by (auto simp: fit_sample_signatures_def Let_def split: sum.splits
             dest: frame_index_data_frame)
qed

text \<open>
  Claim C2. When \<open>fit_sample_signatures\<close> returns, the row labels of the table it returns are
  exactly the grouping keys with more than 100 rows in the input table; a key with 100 rows
  or fewer is not among them.
\<close>

theorem fit_sample_signatures_row_labels:
  assumes "fit_sample_signatures transform snvs_table sig_prob = Inr sample_sig"
  shows "set (frame_index sample_sig) = {k. 100 < count_list (map fst snvs_table) k}"
  using frame_index_fit_sample_signatures [OF assms] set_surviving_groups [of snvs_table]
  by simp

text \<open>
  Claim C5. When no grouping key has more than 100 rows (so also on the table with no
  rows), \<open>fit_sample_signatures\<close> returns the empty frame and raises nothing; the library's
  routine is not called.
\<close>

theorem fit_sample_signatures_no_groups:
  assumes "\<forall>k. count_list (map fst snvs_table) k \<le> 100"
  shows "fit_sample_signatures transform snvs_table sig_prob = Inr empty_frame"
proof -
  have "set (frame_index (tri_nuc_table (filter_snv_counts snvs_table))) = {}"
    unfolding set_surviving_groups using assms by (auto simp: not_less)
  then have "frame_index (tri_nuc_table (filter_snv_counts snvs_table)) = []"
    by simp
  then show ?thesis
    by (simp add: fit_sample_signatures_def Let_def)
qed

text \<open>
  The function returns whenever the library's routine returns a matrix with one row per
  group and one column per signature.
\<close>

lemma fit_sample_signatures_returns:
  assumes "transform \<lparr>n_topics = length (frame_columns sig_prob), random_state = 0,
                      n_iter = 10000, alpha = 1 / 100,
                      components = transpose (frame_values sig_prob)\<rparr>
             (frame_values (tri_nuc_table (filter_snv_counts snvs_table))) 1000 = Inr doc_topic"
    and "length doc_topic = length (frame_values (tri_nuc_table (filter_snv_counts snvs_table)))"
    and "list_all (\<lambda>row. length row = length (frame_columns sig_prob)) doc_topic"
  shows "\<exists>sample_sig. fit_sample_signatures transform snvs_table sig_prob = Inr sample_sig"
proof -
  have "length (frame_values (tri_nuc_table snvs)) = length (frame_index (tri_nuc_table snvs))"
    for snvs :: "('a \<times> nat) list"
    by (simp add: tri_nuc_table_def astype_int_def fillna_def unstack_def Let_def)
  with assms show ?thesis
    by (simp add: fit_sample_signatures_def Let_def data_frame_def)
qed

text \<open>
  Concrete inputs. The stand-in for the library's routine gives every group the uniform
  distribution over the topics. \<open>node_snvs\<close> has a group of 101 variants and a group of 100.
\<close>

definition uniform_transform :: "lda_model \<Rightarrow> int list list \<Rightarrow> nat \<Rightarrow> error + real list list" where
  "uniform_transform model X max_iter =
     Inr (map (\<lambda>doc. replicate (n_topics model) (1 / real (n_topics model))) X)"

definition node_snvs :: "(string \<times> nat) list" where
  "node_snvs = replicate 101 (''P1_Node0'', 5) @ replicate 100 (''P1_Node1'', 7)"

definition small_snvs :: "(string \<times> nat) list" where
  "small_snvs = replicate 100 (''P1_Node1'', 7) @ [(''P2_Node0'', 3)]"

definition node_exposures :: "(string, string, real) frame" where
  "node_exposures =
     \<lparr>frame_index = [''P1_Node0''], frame_columns = [''1'', ''2''],
      frame_values = [[1 / 2, 1 / 2]]\<rparr>"

lemma count_list_replicate: "count_list (replicate n x) y = (if x = y then n else 0)"
  by (induction n) auto

lemma fit_node_snvs:
  "fit_sample_signatures uniform_transform node_snvs cosmic_head_prob = Inr node_exposures"
  by code_simp

theorem fit_sample_signatures_row_labels_witness:
  "fit_sample_signatures uniform_transform node_snvs cosmic_head_prob = Inr node_exposures
   \<and> count_list (map fst node_snvs) ''P1_Node0'' = 101
   \<and> count_list (map fst node_snvs) ''P1_Node1'' = 100
   \<and> {k. 100 < count_list (map fst node_snvs) k} = {''P1_Node0''}"
proof -
  have "set (frame_index node_exposures) = {''P1_Node0''}"
    by (simp add: node_exposures_def)
  moreover have "count_list (map fst node_snvs) ''P1_Node0'' = 101"
    and "count_list (map fst node_snvs) ''P1_Node1'' = 100"
    by (simp_all add: node_snvs_def count_list_replicate)
  ultimately show ?thesis
    using fit_sample_signatures_row_labels [OF fit_node_snvs] fit_node_snvs by simp
qed

theorem fit_sample_signatures_no_groups_witness:
  "(\<forall>k. count_list (map fst small_snvs) k \<le> 100)
   \<and> fit_sample_signatures uniform_transform small_snvs cosmic_head_prob = Inr empty_frame
   \<and> fit_sample_signatures uniform_transform ([] :: (string \<times> nat) list) cosmic_head_prob
       = Inr empty_frame"
proof -
  have h: "\<forall>k. count_list (map fst small_snvs) k \<le> 100"
    by (simp add: small_snvs_def count_list_replicate)
  have e: "\<forall>k. count_list (map fst ([] :: (string \<times> nat) list)) k \<le> 100"
    by simp
  show ?thesis
    using h fit_sample_signatures_no_groups [OF h, of uniform_transform cosmic_head_prob]
      fit_sample_signatures_no_groups [OF e, of uniform_transform cosmic_head_prob]
    by simp
qed

text \<open>
  Claim C3 (the code at a failing input). The count matrix has one column per context index
  that occurs among the surviving rows, not one per context index of the reference table:
  for a single surviving group of 101 variants, all of context index 5, it has the one
  column 5.
\<close>

theorem tri_nuc_table_observed_columns_only:
  "tri_nuc_table (filter_snv_counts (replicate 101 (''P1_Node0'', 5)))
     = \<lparr>frame_index = [''P1_Node0''], frame_columns = [5], frame_values = [[101]]\<rparr>"
  by code_simp

end
